theory Spec2Isabelle
  imports Complex_Main "HOL-Library.Multiset"
begin

section \<open>Data model\<close>

text \<open>
  The feature engineer of \<^verbatim>\<open>src/features/engineer.py\<close> works on pandas tables. A
  table is modelled as the list of its rows in positional order, a row as the partial
  map from column label to value (what \<^verbatim>\<open>row[label]\<close> reads). Numeric cells are
  idealised as real numbers: there is no NaN and no rounding. Row labels (the pandas
  index) are left out: the code reads rows by position (\<^verbatim>\<open>iloc\<close>, \<^verbatim>\<open>rolling\<close>) or
  through a mask computed from the same table, and \<^verbatim>\<open>concat\<close> is asked to ignore them.
  A table without rows carries no column labels in this model.

  Exceptions are values of \<open>error\<close>, named after the Python exception raised.
\<close>

datatype error = KeyError string | IndexError | ValueError

type_synonym series = "string \<rightharpoonup> real"

type_synonym dataframe = "series list"

text \<open>Sequencing of two steps where the first may raise.\<close>

definition ebind :: "error + 'a \<Rightarrow> ('a \<Rightarrow> error + 'b) \<Rightarrow> error + 'b" where
  "ebind m f = (case m of Inl e \<Rightarrow> Inl e | Inr x \<Rightarrow> f x)"

section \<open>The pandas operations the engineer calls\<close>

text \<open>\<^verbatim>\<open>row[label]\<close> on one row: KeyError when the label is absent.\<close>

definition getitem :: "series \<Rightarrow> string \<Rightarrow> error + real" where
  "getitem r c = (case r c of None \<Rightarrow> Inl (KeyError c) | Some v \<Rightarrow> Inr v)"

text \<open>\<^verbatim>\<open>df[label]\<close>: the column as a list of values, KeyError when it is absent.\<close>

definition column :: "dataframe \<Rightarrow> string \<Rightarrow> error + real list" where
  "column df c =
     (if \<forall>r \<in> set df. r c \<noteq> None then Inr (map (\<lambda>r. the (r c)) df)
      else Inl (KeyError c))"

text \<open>
  \<^verbatim>\<open>df[label] = values\<close>: writes the column, adding it when it is new. The values
  come from a column of the same table, so they line up row by row.
\<close>

definition set_column :: "dataframe \<Rightarrow> string \<Rightarrow> real list \<Rightarrow> dataframe" where
  "set_column df c vs = map (\<lambda>(r, v). r(c \<mapsto> v)) (zip df vs)"

text \<open>
  \<^verbatim>\<open>df.sort_values(label)\<close>: a new table, rows ascending by the column. Rows with
  equal keys keep their relative order here; pandas' default sort kind does not promise
  that, so for tied keys the model fixes one of the orders the library may produce.
  When the keys are all different there is only one ascending order.
\<close>

definition sort_values :: "dataframe \<Rightarrow> string \<Rightarrow> error + dataframe" where
  "sort_values df c =
     (case column df c of
        Inl e \<Rightarrow> Inl e
      | Inr _ \<Rightarrow> Inr (sort_key (\<lambda>r. the (r c)) df))"

text \<open>
  \<^verbatim>\<open>s.rolling(window=w, min_periods=1).mean()\<close> for an integer \<open>w\<close>. pandas rejects
  a negative window, and a window smaller than \<open>min_periods\<close>, with a ValueError.
  Otherwise position \<open>i\<close> sees the values at positions \<open>[start, i + 1)\<close> with
  \<open>start = max 0 (i + 1 - w)\<close>, and the result there is their sum over their count.
\<close>

definition window_at :: "int \<Rightarrow> real list \<Rightarrow> nat \<Rightarrow> real list" where
  "window_at w xs i =
     (let stop = i + 1; start = nat (int stop - w)
      in take (stop - start) (drop start xs))"

definition rolling_mean :: "int \<Rightarrow> real list \<Rightarrow> error + real list" where
  "rolling_mean w xs =
     (if w < 0 \<or> w < 1 then Inl ValueError
      else Inr (map (\<lambda>i. sum_list (window_at w xs i) / real (length (window_at w xs i)))
                    [0..<length xs]))"

text \<open>\<^verbatim>\<open>df.iloc[-1]\<close>: the last row, IndexError on a table without rows.\<close>

definition iloc_last :: "dataframe \<Rightarrow> error + series" where
  "iloc_last df = (if df = [] then Inl IndexError else Inr (last df))"

text \<open>\<^verbatim>\<open>df[df[label] < bound]\<close>: the rows whose cell is below the bound, in order.\<close>

definition rows_below :: "dataframe \<Rightarrow> string \<Rightarrow> real \<Rightarrow> error + dataframe" where
  "rows_below df c bound =
     (case column df c of
        Inl e \<Rightarrow> Inl e
      | Inr _ \<Rightarrow> Inr (filter (\<lambda>r. the (r c) < bound) df))"

text \<open>\<^verbatim>\<open>df[label] = scalar\<close>: the scalar in every row.\<close>

definition set_scalar :: "dataframe \<Rightarrow> string \<Rightarrow> real \<Rightarrow> dataframe" where
  "set_scalar df c v = map (\<lambda>r. r(c \<mapsto> v)) df"

text \<open>
  \<^verbatim>\<open>pd.concat(frames, ignore_index=True)\<close>: the rows of the tables one after the
  other; pandas raises ValueError (no objects to concatenate) on an empty list.
\<close>

definition pd_concat :: "dataframe list \<Rightarrow> error + dataframe" where
  "pd_concat frames = (if frames = [] then Inl ValueError else Inr (concat frames))"

text \<open>\<^verbatim>\<open>str(n)\<close> of an integer, as the f-strings of the column labels print it.\<close>

fun str_nat :: "nat \<Rightarrow> string" where
  "str_nat n =
     (if n < 10 then [''0123456789'' ! n]
      else str_nat (n div 10) @ [''0123456789'' ! (n mod 10)])"

definition str_int :: "int \<Rightarrow> string" where
  "str_int i = (if i < 0 then CHR ''-'' # str_nat (nat (- i)) else str_nat (nat i))"

section \<open>FeatureEngineer\<close>

text \<open>
  The object holds one attribute, \<open>window_size\<close>, stored unchecked by the constructor;
  every method takes it as its first argument here.
\<close>

definition rolling_cols :: "string list" where
  "rolling_cols =
     [''points'', ''epa'', ''success'', ''def_epa'', ''pts_allowed'', ''turnovers'', ''sacks'']"

definition rolling_name :: "string \<Rightarrow> int \<Rightarrow> string" where
  "rolling_name col window_size = col @ ''_rolling_'' @ str_int window_size"

text \<open>The loop over \<open>rolling_cols\<close>: each pass reads a raw column and writes its mean.\<close>

fun add_rolling :: "int \<Rightarrow> string list \<Rightarrow> dataframe \<Rightarrow> error + dataframe" where
  "add_rolling window_size [] team_stats = Inr team_stats"
| "add_rolling window_size (col # cols) team_stats =
     ebind (column team_stats col) (\<lambda>xs.
     ebind (rolling_mean window_size xs) (\<lambda>m.
     add_rolling window_size cols
       (set_column team_stats (rolling_name col window_size) m)))"

definition create_rolling_features :: "int \<Rightarrow> dataframe \<Rightarrow> error + dataframe" where
  "create_rolling_features window_size team_stats =
     ebind (sort_values team_stats ''week'') (add_rolling window_size rolling_cols)"

text \<open>
  A dict literal is evaluated entry by entry, left to right: the first entry whose
  value raises ends the evaluation, and a later entry replaces an earlier one with the
  same key.
\<close>

fun build_dict :: "series \<Rightarrow> (string \<times> (error + real)) list \<Rightarrow> error + series" where
  "build_dict acc [] = Inr acc"
| "build_dict acc ((k, v) # kvs) = ebind v (\<lambda>x. build_dict (acc(k \<mapsto> x)) kvs)"

definition diff_of :: "error + real \<Rightarrow> error + real \<Rightarrow> error + real" where
  "diff_of a b = ebind a (\<lambda>x. ebind b (\<lambda>y. Inr (x - y)))"

definition scaled :: "error + real \<Rightarrow> real \<Rightarrow> error + real" where
  "scaled a k = ebind a (\<lambda>x. Inr (x * k))"

definition create_matchup_features :: "int \<Rightarrow> dataframe \<Rightarrow> dataframe \<Rightarrow> error + dataframe" where
  "create_matchup_features window team1_stats team2_stats =
     ebind (iloc_last team1_stats) (\<lambda>t1.
     ebind (iloc_last team2_stats) (\<lambda>t2.
     ebind (build_dict Map.empty
       [(''pts_diff'', diff_of (getitem t1 (rolling_name ''points'' window))
                             (getitem t2 (rolling_name ''points'' window))),
        (''epa_diff'', diff_of (getitem t1 (rolling_name ''epa'' window))
                             (getitem t2 (rolling_name ''epa'' window))),
        (''success_diff'', diff_of (getitem t1 (rolling_name ''success'' window))
                                 (getitem t2 (rolling_name ''success'' window))),
        (''turnover_diff'', diff_of (getitem t1 (rolling_name ''turnovers'' window))
                                  (getitem t2 (rolling_name ''turnovers'' window))),
        (''t1_epa'', getitem t1 (rolling_name ''epa'' window)),
        (''t2_epa'', getitem t2 (rolling_name ''epa'' window)),
        (''t1_success'', getitem t1 (rolling_name ''success'' window)),
        (''t2_success'', getitem t2 (rolling_name ''success'' window)),
        (''def_epa_diff'', scaled (diff_of (getitem t1 (rolling_name ''def_epa'' window))
                                        (getitem t2 (rolling_name ''def_epa'' window))) 2),
        (''pts_allowed_diff'',
           scaled (diff_of (getitem t1 (rolling_name ''pts_allowed'' window))
                        (getitem t2 (rolling_name ''pts_allowed'' window))) 2),
        (''sacks_diff'', scaled (diff_of (getitem t1 (rolling_name ''sacks'' window))
                                      (getitem t2 (rolling_name ''sacks'' window))) 2),
        (''net_pts_diff'',
           diff_of (diff_of (getitem t1 (rolling_name ''points'' window))
                        (getitem t1 (rolling_name ''pts_allowed'' window)))
                 (diff_of (getitem t2 (rolling_name ''points'' window))
                        (getitem t2 (rolling_name ''pts_allowed'' window))))])
       (\<lambda>features. Inr [features])))"

subsection \<open>Training set\<close>

text \<open>
  A row of the schedule table. The code reads the six columns below by their literal
  labels; the team and game type cells are strings, the others numbers.
\<close>

record game =
  week :: real
  home_team :: string
  away_team :: string
  home_score :: real
  away_score :: real
  game_type :: string

text \<open>\<^verbatim>\<open>all_team_stats[team]\<close> on the dict of per-team tables.\<close>

definition team_table :: "(string \<rightharpoonup> dataframe) \<Rightarrow> string \<Rightarrow> error + dataframe" where
  "team_table all_team_stats team =
     (case all_team_stats team of None \<Rightarrow> Inl (KeyError team) | Some df \<Rightarrow> Inr df)"

text \<open>
  One pass of the loop over the completed games: \<open>None\<close> for \<^verbatim>\<open>continue\<close>,
  otherwise the one-row table that is appended to \<open>training_data\<close>.
\<close>

definition game_features ::
  "int \<Rightarrow> (string \<rightharpoonup> dataframe) \<Rightarrow> game \<Rightarrow> error + dataframe option" where
  "game_features window_size all_team_stats g =
     ebind (team_table all_team_stats (home_team g)) (\<lambda>home_all.
     ebind (rows_below home_all ''week'' (week g)) (\<lambda>home_stats.
     ebind (team_table all_team_stats (away_team g)) (\<lambda>away_all.
     ebind (rows_below away_all ''week'' (week g)) (\<lambda>away_stats.
     if length home_stats < 3 \<or> length away_stats < 3 then Inr None
     else
       ebind (create_matchup_features window_size home_stats away_stats) (\<lambda>features.
       Inr (Some
         (set_scalar
            (set_scalar features ''home_win'' (if home_score g > away_score g then 1 else 0))
            ''point_diff'' (home_score g - away_score g))))))))"

fun training_loop ::
  "int \<Rightarrow> (string \<rightharpoonup> dataframe) \<Rightarrow> game list \<Rightarrow> dataframe list \<Rightarrow> error + dataframe list"
where
  "training_loop window_size all_team_stats [] training_data = Inr training_data"
| "training_loop window_size all_team_stats (g # gs) training_data =
     ebind (game_features window_size all_team_stats g) (\<lambda>r.
     training_loop window_size all_team_stats gs
       (case r of None \<Rightarrow> training_data | Some features \<Rightarrow> training_data @ [features]))"

definition completed :: "game list \<Rightarrow> game list" where
  "completed schedules = filter (\<lambda>g. game_type g = ''REG'') schedules"

definition prepare_training_data ::
  "int \<Rightarrow> (string \<rightharpoonup> dataframe) \<Rightarrow> game list \<Rightarrow> error + dataframe" where
  "prepare_training_data window_size all_team_stats schedules =
     ebind (training_loop window_size all_team_stats (completed schedules) []) pd_concat"

subsection \<open>The training branch of main\<close>

text \<open>
  \<^verbatim>\<open>main\<close> smooths the season table of every home team of the schedule and hands
  the dict to \<open>prepare_training_data\<close>. The season tables come from the data fetcher,
  which is outside the engineer: \<open>season_stats team\<close> stands for the table it returns.
  \<^verbatim>\<open>unique()\<close> keeps the first occurrence of each value.
\<close>

definition unique :: "string list \<Rightarrow> string list" where
  "unique xs = rev (remdups (rev xs))"

fun collect_team_stats ::
  "int \<Rightarrow> (string \<Rightarrow> dataframe) \<Rightarrow> string list \<Rightarrow> (string \<rightharpoonup> dataframe)
     \<Rightarrow> error + (string \<rightharpoonup> dataframe)" where
  "collect_team_stats window_size season_stats [] all_team_stats = Inr all_team_stats"
| "collect_team_stats window_size season_stats (team # teams) all_team_stats =
     ebind (create_rolling_features window_size (season_stats team)) (\<lambda>stats.
     collect_team_stats window_size season_stats teams (all_team_stats(team \<mapsto> stats)))"

definition main_training_data ::
  "int \<Rightarrow> (string \<Rightarrow> dataframe) \<Rightarrow> game list \<Rightarrow> error + dataframe" where
  "main_training_data window_size season_stats schedules =
     ebind (collect_team_stats window_size season_stats
              (unique (map home_team schedules)) Map.empty)
       (\<lambda>all_team_stats. prepare_training_data window_size all_team_stats schedules)"

section \<open>The smoother on shared tables\<close>

text \<open>
  Python passes tables by reference. To speak about what a call does to the caller's
  table, the store holds every table that exists, a reference is a position in it, and
  a new table is put at the end. \<^verbatim>\<open>sort_values\<close> makes a new table; the column
  assignments of the loop write into the table their reference points to. An exception
  leaves the store as it is at that moment.
\<close>

type_synonym ref = nat

type_synonym store = "dataframe list"

definition sort_values_ref :: "ref \<Rightarrow> string \<Rightarrow> store \<Rightarrow> (error + ref) \<times> store" where
  "sort_values_ref a c st =
     (case sort_values (st ! a) c of
        Inl e \<Rightarrow> (Inl e, st)
      | Inr df \<Rightarrow> (Inr (length st), st @ [df]))"

fun add_rolling_ref :: "int \<Rightarrow> string list \<Rightarrow> ref \<Rightarrow> store \<Rightarrow> (error + ref) \<times> store" where
  "add_rolling_ref window_size [] a st = (Inr a, st)"
| "add_rolling_ref window_size (col # cols) a st =
     (case column (st ! a) col of
        Inl e \<Rightarrow> (Inl e, st)
      | Inr xs \<Rightarrow>
          (case rolling_mean window_size xs of
             Inl e \<Rightarrow> (Inl e, st)
           | Inr m \<Rightarrow>
               add_rolling_ref window_size cols a
                 (st[a := set_column (st ! a) (rolling_name col window_size) m])))"

definition create_rolling_features_ref :: "int \<Rightarrow> ref \<Rightarrow> store \<Rightarrow> (error + ref) \<times> store" where
  "create_rolling_features_ref window_size team_stats st =
     (case sort_values_ref team_stats ''week'' st of
        (Inl e, st') \<Rightarrow> (Inl e, st')
      | (Inr sorted_stats, st') \<Rightarrow> add_rolling_ref window_size rolling_cols sorted_stats st')"

section \<open>Notions used in the statements\<close>

text \<open>
  The feature row the dict literal of \<open>create_matchup_features\<close> describes, written
  as a function of the two current-form snapshots (\<open>s1 c\<close> is team 1's smoothed
  value of the raw column \<open>c\<close>).
\<close>

definition features_of :: "(string \<Rightarrow> real) \<Rightarrow> (string \<Rightarrow> real) \<Rightarrow> series" where
  "features_of s1 s2 =
     [''pts_diff'' \<mapsto> s1 ''points'' - s2 ''points'',
      ''epa_diff'' \<mapsto> s1 ''epa'' - s2 ''epa'',
      ''success_diff'' \<mapsto> s1 ''success'' - s2 ''success'',
      ''turnover_diff'' \<mapsto> s1 ''turnovers'' - s2 ''turnovers'',
      ''t1_epa'' \<mapsto> s1 ''epa'',
      ''t2_epa'' \<mapsto> s2 ''epa'',
      ''t1_success'' \<mapsto> s1 ''success'',
      ''t2_success'' \<mapsto> s2 ''success'',
      ''def_epa_diff'' \<mapsto> (s1 ''def_epa'' - s2 ''def_epa'') * 2,
      ''pts_allowed_diff'' \<mapsto> (s1 ''pts_allowed'' - s2 ''pts_allowed'') * 2,
      ''sacks_diff'' \<mapsto> (s1 ''sacks'' - s2 ''sacks'') * 2,
      ''net_pts_diff'' \<mapsto>
         (s1 ''points'' - s1 ''pts_allowed'') - (s2 ''points'' - s2 ''pts_allowed'')]"

text \<open>
  A row is smoothed for a window when it carries the seven rolling columns of that
  window; \<open>smoothed_value\<close> reads one of them.
\<close>

definition smoothed_row :: "int \<Rightarrow> series \<Rightarrow> bool" where
  "smoothed_row w r \<longleftrightarrow> (\<forall>c \<in> set rolling_cols. r (rolling_name c w) \<noteq> None)"

definition smoothed_value :: "int \<Rightarrow> series \<Rightarrow> string \<Rightarrow> real" where
  "smoothed_value w r c = the (r (rolling_name c w))"

text \<open>The values of a column that every row has, and the mean pandas puts at one position.\<close>

definition colvals :: "dataframe \<Rightarrow> string \<Rightarrow> real list" where
  "colvals df c = map (\<lambda>r. the (r c)) df"

definition window_mean :: "int \<Rightarrow> real list \<Rightarrow> nat \<Rightarrow> real" where
  "window_mean w xs i = sum_list (window_at w xs i) / real (length (window_at w xs i))"

text \<open>A raw season table: every row has the week and the seven raw statistics.\<close>

definition team_week_stats :: "dataframe \<Rightarrow> bool" where
  "team_week_stats df \<longleftrightarrow>
     (\<forall>r \<in> set df. r ''week'' \<noteq> None \<and> (\<forall>c \<in> set rolling_cols. r c \<noteq> None))"

text \<open>One pass of the loop of \<open>create_rolling_features\<close> when nothing raises.\<close>

definition smooth_step :: "int \<Rightarrow> string \<Rightarrow> dataframe \<Rightarrow> dataframe" where
  "smooth_step w c df =
     set_column df (rolling_name c w) (map (window_mean w (colvals df c)) [0..<length df])"

definition week_of :: "series \<Rightarrow> real" where
  "week_of r = the (r ''week'')"

text \<open>The eight differential fields of a feature row.\<close>

definition diff_fields :: "string list" where
  "diff_fields = [''pts_diff'', ''epa_diff'', ''success_diff'', ''turnover_diff'',
     ''def_epa_diff'', ''pts_allowed_diff'', ''sacks_diff'', ''net_pts_diff'']"

text \<open>
  The rows of a table before a week, and the number of them a team has in the dict
  (none for a team that is not a key).
\<close>

definition prior_rows :: "dataframe \<Rightarrow> real \<Rightarrow> dataframe" where
  "prior_rows df w = filter (\<lambda>r. week_of r < w) df"

definition smoothed_table :: "int \<Rightarrow> dataframe \<Rightarrow> bool" where
  "smoothed_table w df \<longleftrightarrow> (\<forall>r \<in> set df. r ''week'' \<noteq> None \<and> smoothed_row w r)"

definition team_ready :: "int \<Rightarrow> (string \<rightharpoonup> dataframe) \<Rightarrow> string \<Rightarrow> bool" where
  "team_ready w all_team_stats team =
     (case all_team_stats team of None \<Rightarrow> False | Some df \<Rightarrow> smoothed_table w df)"

definition prior_weeks :: "(string \<rightharpoonup> dataframe) \<Rightarrow> string \<Rightarrow> real \<Rightarrow> nat" where
  "prior_weeks all_team_stats team w =
     (case all_team_stats team of None \<Rightarrow> 0 | Some df \<Rightarrow> length (prior_rows df w))"

text \<open>
  A game is eligible when it is a regular-season game and both teams have at least
  three rows before its week.
\<close>

definition eligible :: "(string \<rightharpoonup> dataframe) \<Rightarrow> game \<Rightarrow> bool" where
  "eligible all_team_stats g \<longleftrightarrow>
     game_type g = ''REG'' \<and>
     3 \<le> prior_weeks all_team_stats (home_team g) (week g) \<and>
     3 \<le> prior_weeks all_team_stats (away_team g) (week g)"

text \<open>
  The training row expected for a game: the features of the two teams' last rows before
  the game's week, with the two labels.
\<close>

definition current_form :: "int \<Rightarrow> (string \<rightharpoonup> dataframe) \<Rightarrow> string \<Rightarrow> real \<Rightarrow> string \<Rightarrow> real" where
  "current_form w all_team_stats team wk =
     smoothed_value w (last (prior_rows (the (all_team_stats team)) wk))"

definition training_row :: "int \<Rightarrow> (string \<rightharpoonup> dataframe) \<Rightarrow> game \<Rightarrow> series" where
  "training_row w all_team_stats g =
     (features_of (current_form w all_team_stats (home_team g) (week g))
                  (current_form w all_team_stats (away_team g) (week g)))
       (''home_win'' \<mapsto> (if home_score g > away_score g then 1 else 0),
        ''point_diff'' \<mapsto> home_score g - away_score g)"

text \<open>The two steps that read a team's rows before a week out of the dict.\<close>

definition prior_of :: "(string \<rightharpoonup> dataframe) \<Rightarrow> string \<Rightarrow> real \<Rightarrow> error + dataframe" where
  "prior_of stats t b = ebind (team_table stats t) (\<lambda>df. rows_below df ''week'' b)"

section \<open>Example data\<close>

text \<open>Two current-form snapshots for window 5, given by their seven smoothed values.\<close>

definition smoothed_example :: "int \<Rightarrow> real list \<Rightarrow> series" where
  "smoothed_example w vs = map_of (zip (map (\<lambda>c. rolling_name c w) rolling_cols) vs)"

definition form_a :: series where
  "form_a = smoothed_example 5 [24, 3, 1, 2, 18, 1, 3]"

definition form_b :: series where
  "form_b = smoothed_example 5 [16, 1, 0, 1, 21, 2, 1]"

text \<open>
  Raw season tables, a row given as week, points, epa, success, def\_epa, pts\_allowed,
  turnovers, sacks. \<open>team_a\<close> is out of week order; \<open>team_a_late\<close> agrees with it
  on weeks 1 to 3 and differs from week 4 on.
\<close>

definition stat_row :: "real list \<Rightarrow> series" where
  "stat_row vs = map_of (zip (''week'' # rolling_cols) vs)"

definition team_a :: dataframe where
  "team_a = map stat_row
     [[3, 17, 2, 1, 1, 21, 1, 2], [1, 20, 1, 0, 2, 17, 0, 3], [2, 24, 3, 1, 1, 10, 2, 1],
      [4, 28, 2, 1, 0, 14, 1, 4], [5, 31, 4, 1, 1, 20, 0, 2]]"

definition team_a_late :: dataframe where
  "team_a_late = map stat_row
     [[3, 17, 2, 1, 1, 21, 1, 2], [1, 20, 1, 0, 2, 17, 0, 3], [2, 24, 3, 1, 1, 10, 2, 1],
      [5, 3, 0, 0, 9, 45, 6, 0], [4, 0, 0, 0, 7, 52, 5, 0], [6, 7, 1, 0, 3, 38, 4, 1]]"

definition team_b :: dataframe where
  "team_b = map stat_row
     [[1, 14, 1, 0, 1, 20, 2, 1], [2, 10, 0, 0, 2, 27, 3, 0], [3, 21, 2, 1, 1, 17, 1, 2],
      [4, 17, 1, 1, 1, 24, 1, 3], [5, 20, 2, 1, 0, 13, 0, 2]]"

definition season_one :: "string \<Rightarrow> dataframe" where
  "season_one team = (if team = ''SEA'' then team_a else team_b)"

definition season_two :: "string \<Rightarrow> dataframe" where
  "season_two team = (if team = ''SEA'' then team_a_late else team_b)"

text \<open>
  Smoothed tables with one row per listed week, a dict where the home team has two
  prior weeks and one where it has three, and a week-6 game between the two teams.
\<close>

definition form_table :: "real list \<Rightarrow> dataframe" where
  "form_table weeks = map (\<lambda>wk. form_a(''week'' \<mapsto> wk)) weeks"

definition short_stats :: "string \<rightharpoonup> dataframe" where
  "short_stats = [''SEA'' \<mapsto> form_table [1, 2], ''NE'' \<mapsto> form_table [1, 2, 3, 4, 5]]"

definition full_stats :: "string \<rightharpoonup> dataframe" where
  "full_stats = [''SEA'' \<mapsto> form_table [1, 2, 3], ''NE'' \<mapsto> form_table [1, 2, 3, 4, 5]]"

definition week6 :: "real \<Rightarrow> real \<Rightarrow> string \<Rightarrow> game" where
  "week6 hs as gt = \<lparr>week = 6, home_team = ''SEA'', away_team = ''NE'',
     home_score = hs, away_score = as, game_type = gt\<rparr>"

section \<open>Basic facts\<close>

lemma ebind_simps [simp]:
  "ebind (Inl e) f = Inl e"
  "ebind (Inr x) f = f x"
  by (simp_all add: ebind_def)

lemma ebind_eq_Inr: "ebind m f = Inr y \<longleftrightarrow> (\<exists>x. m = Inr x \<and> f x = Inr y)"
  by (cases m) simp_all

lemma iloc_last_simps [simp]:
  "iloc_last [] = Inl IndexError"
  "iloc_last (xs @ [r]) = Inr r"
  "iloc_last [r] = Inr r"
  by (simp_all add: iloc_last_def)

lemma getitem_Some: "r c = Some v \<Longrightarrow> getitem r c = Inr v"
  by (simp add: getitem_def)

section \<open>The rolling smoother\<close>

text \<open>
  A rolling column label is longer than every raw label, so the loop never overwrites
  a column it still has to read.
\<close>

lemma raw_name_length: "c \<in> set rolling_cols \<Longrightarrow> 3 \<le> length c \<and> length c \<le> 11"
  by (auto simp: rolling_cols_def)

lemma rolling_name_length: "length (rolling_name c w) \<ge> length c + 9"
  by (simp add: rolling_name_def)

lemma rolling_name_not_raw:
  assumes "c \<in> set rolling_cols"
  shows "rolling_name c w \<notin> set rolling_cols" and "rolling_name c w \<noteq> ''week''"
proof -
  have l: "12 \<le> length (rolling_name c w)"
    using raw_name_length [OF assms] rolling_name_length [of c w] by linarith
  show "rolling_name c w \<notin> set rolling_cols"
    using raw_name_length [of "rolling_name c w"] l by auto
  show "rolling_name c w \<noteq> ''week''"
    using l by auto
qed

lemma rolling_name_inj [simp]: "rolling_name c w = rolling_name c' w \<longleftrightarrow> c = c'"
  by (simp add: rolling_name_def)

lemma column_Inr: "column df c = Inr xs \<longleftrightarrow> (\<forall>r \<in> set df. r c \<noteq> None) \<and> xs = colvals df c"
  by (auto simp: column_def colvals_def)

lemma column_present: "\<forall>r \<in> set df. r c \<noteq> None \<Longrightarrow> column df c = Inr (colvals df c)"
  by (simp add: column_Inr)

lemma rolling_mean_Inr:
  "rolling_mean w xs = Inr m \<longleftrightarrow> 0 < w \<and> m = map (window_mean w xs) [0..<length xs]"
  by (auto simp: rolling_mean_def window_mean_def)

lemma rolling_mean_pos: "0 < w \<Longrightarrow> rolling_mean w xs = Inr (map (window_mean w xs) [0..<length xs])"
  by (simp add: rolling_mean_Inr)

lemma rolling_mean_nonpos: "w \<le> 0 \<Longrightarrow> rolling_mean w xs = Inl ValueError"
  by (simp add: rolling_mean_def)

lemma length_colvals [simp]: "length (colvals df c) = length df"
  by (simp add: colvals_def)

lemma length_set_column: "length vs = length df \<Longrightarrow> length (set_column df c vs) = length df"
  by (simp add: set_column_def)

lemma nth_set_column:
  "length vs = length df \<Longrightarrow> i < length df \<Longrightarrow> set_column df c vs ! i = (df ! i)(c \<mapsto> vs ! i)"
  by (simp add: set_column_def)

lemma set_column_keeps:
  "r' \<in> set (set_column df c vs) \<Longrightarrow> \<exists>r \<in> set df. \<exists>v. r' = r(c \<mapsto> v)"
  by (auto simp: set_column_def dest: set_zip_leftD)

lemma colvals_set_column:
  "length vs = length df \<Longrightarrow> c' \<noteq> c \<Longrightarrow> colvals (set_column df c vs) c' = colvals df c'"
  by (rule nth_equalityI) (simp_all add: colvals_def length_set_column nth_set_column)

lemma add_rolling_Cons_Inr:
  "add_rolling w (c # cs) df = Inr out \<longleftrightarrow>
     (\<forall>r \<in> set df. r c \<noteq> None) \<and> 0 < w \<and> add_rolling w cs (smooth_step w c df) = Inr out"
  by (auto simp: ebind_eq_Inr column_Inr rolling_mean_Inr smooth_step_def)

lemma length_smooth_step [simp]: "length (smooth_step w c df) = length df"
  by (simp add: smooth_step_def length_set_column)

lemma nth_smooth_step:
  "i < length df \<Longrightarrow>
     smooth_step w c df ! i = (df ! i)(rolling_name c w \<mapsto> window_mean w (colvals df c) i)"
  by (simp add: smooth_step_def nth_set_column)

lemma colvals_smooth_step:
  "c' \<noteq> rolling_name c w \<Longrightarrow> colvals (smooth_step w c df) c' = colvals df c'"
  by (simp add: smooth_step_def colvals_set_column)

lemma smooth_step_keeps:
  "r' \<in> set (smooth_step w c df) \<Longrightarrow> \<exists>r \<in> set df. \<exists>v. r' = r(rolling_name c w \<mapsto> v)"
  unfolding smooth_step_def by (rule set_column_keeps)

text \<open>
  What the loop returns: the table it was given with, for each column of the list, the
  window means of that column under the rolling label, and every other cell as it was.
\<close>

lemma add_rolling_shape:
  assumes "add_rolling w cs df = Inr out" "set cs \<subseteq> set rolling_cols"
  shows "length out = length df \<and>
     (\<forall>i < length df. \<forall>c \<in> set cs.
        (out ! i) (rolling_name c w) = Some (window_mean w (colvals df c) i)) \<and>
     (\<forall>i < length df. \<forall>k. k \<notin> (\<lambda>c. rolling_name c w) ` set cs \<longrightarrow> (out ! i) k = (df ! i) k)"
  using assms
proof (induction cs arbitrary: df)
  case Nil
  then show ?case by simp
next
  case (Cons c cs)
  let ?df = "smooth_step w c df"
  from Cons.prems(1) have run: "add_rolling w cs ?df = Inr out"
    by (simp only: add_rolling_Cons_Inr)
  from Cons.prems(2) have sub: "set cs \<subseteq> set rolling_cols" and c: "c \<in> set rolling_cols"
    by auto
  note ih = Cons.IH [OF run sub]
  have len: "length out = length df" using ih by simp
  have old: "(out ! i) k = (?df ! i) k"
    if "i < length df" "k \<notin> (\<lambda>c. rolling_name c w) ` set cs" for i k
    using ih that by simp
  have new: "(out ! i) (rolling_name c' w) = Some (window_mean w (colvals df c') i)"
    if "i < length df" "c' \<in> set (c # cs)" for i c'
  proof (cases "c' \<in> set cs")
    case True
    then have "c' \<in> set rolling_cols" using sub by auto
    then have "c' \<noteq> rolling_name c w" using rolling_name_not_raw(1) [OF c] by auto
    then have "colvals ?df c' = colvals df c'" by (rule colvals_smooth_step)
    then show ?thesis using ih True that(1) by simp
  next
    case False
    then have c': "c' = c" using that(2) by simp
    have "rolling_name c w \<notin> (\<lambda>c. rolling_name c w) ` set cs" using False c' by auto
    then have "(out ! i) (rolling_name c w) = (?df ! i) (rolling_name c w)"
      using old that(1) by blast
    then show ?thesis using that(1) c' by (simp add: nth_smooth_step)
  qed
  have rest: "(out ! i) k = (df ! i) k"
    if "i < length df" "k \<notin> (\<lambda>c. rolling_name c w) ` set (c # cs)" for i k
  proof -
    from that(2) have "k \<notin> (\<lambda>c. rolling_name c w) ` set cs" and "k \<noteq> rolling_name c w"
      by auto
    then show ?thesis using old [OF that(1)] that(1) by (simp add: nth_smooth_step)
  qed
  show ?case using len new rest by blast
qed

lemma add_rolling_needs:
  assumes "add_rolling w cs df = Inr out" "cs \<noteq> []"
  shows "0 < w"
  using assms by (cases cs) (simp_all only: add_rolling_Cons_Inr, simp)

lemma add_rolling_succeeds:
  assumes "0 < w" "\<forall>r \<in> set df. \<forall>c \<in> set cs. r c \<noteq> None"
  shows "\<exists>out. add_rolling w cs df = Inr out"
  using assms
proof (induction cs arbitrary: df)
  case Nil
  then show ?case by simp
next
  case (Cons c cs)
  have "\<forall>r \<in> set (smooth_step w c df). \<forall>c' \<in> set cs. r c' \<noteq> None"
    using Cons.prems(2) by (auto dest!: smooth_step_keeps)
  from Cons.IH [OF Cons.prems(1) this] show ?case
    using Cons.prems by (simp add: add_rolling_Cons_Inr del: add_rolling.simps)
qed

lemma add_rolling_nonpos:
  assumes "w \<le> 0" "\<forall>r \<in> set df. r c \<noteq> None"
  shows "add_rolling w (c # cs) df = Inl ValueError"
  using assms by (simp add: column_present rolling_mean_nonpos)

text \<open>The window mean as a sum over positions.\<close>

lemma sum_list_take_drop:
  fixes xs :: "real list"
  assumes "k + n \<le> length xs"
  shows "sum_list (take n (drop k xs)) = (\<Sum>j = k..<k + n. xs ! j)"
proof -
  have "sum_list (take n (drop k xs)) = (\<Sum>i = 0..<n. take n (drop k xs) ! i)"
    using assms by (simp add: sum_list_sum_nth)
  also have "\<dots> = (\<Sum>i = 0..<n. xs ! (i + k))"
    using assms by (intro sum.cong) (simp_all add: add.commute)
  also have "\<dots> = (\<Sum>j = 0 + k..<n + k. xs ! j)"
    by (rule sum.shift_bounds_nat_ivl [symmetric])
  finally show ?thesis by (simp add: add.commute)
qed

lemma window_at_bounds:
  assumes "i < length xs" "0 < w"
  defines "lo \<equiv> nat (max 0 (int i - w + 1))"
  shows "lo \<le> i" and "window_at w xs i = take (i + 1 - lo) (drop lo xs)"
proof -
  show "lo \<le> i" using assms(2) by (simp add: lo_def)
  have "nat (int (i + 1) - w) = lo" by (simp add: lo_def max_def algebra_simps)
  then show "window_at w xs i = take (i + 1 - lo) (drop lo xs)"
    by (simp add: window_at_def Let_def)
qed

lemma window_mean_sum:
  assumes "i < length xs" "0 < w"
  shows "window_mean w xs i =
           (\<Sum>j = nat (max 0 (int i - w + 1))..i. xs ! j)
             / real (i - nat (max 0 (int i - w + 1)) + 1)"
proof -
  let ?lo = "nat (max 0 (int i - w + 1))"
  note b = window_at_bounds [OF assms]
  have len: "length (window_at w xs i) = i + 1 - ?lo"
    using b assms(1) by simp
  have "sum_list (window_at w xs i) = (\<Sum>j = ?lo..<?lo + (i + 1 - ?lo). xs ! j)"
    unfolding b(2) using b(1) assms(1) by (intro sum_list_take_drop) simp
  also have "\<dots> = (\<Sum>j = ?lo..i. xs ! j)"
    using b(1) by (simp add: atLeastLessThanSuc_atLeastAtMost)
  finally show ?thesis
    using b(1) by (simp add: window_mean_def len Suc_diff_le)
qed

lemma window_mean_all:
  assumes "xs \<noteq> []" "int (length xs) \<le> w"
  shows "window_mean w xs (length xs - 1) = sum_list xs / real (length xs)"
proof -
  have "nat (int (length xs - 1 + 1) - w) = 0" using assms by simp
  then have "window_at w xs (length xs - 1) = xs"
    using assms(1) by (simp add: window_at_def Let_def)
  then show ?thesis by (simp add: window_mean_def)
qed

lemma sum_list_insort_key:
  fixes g :: "'a \<Rightarrow> real"
  shows "sum_list (map g (insort_key f x xs)) = g x + sum_list (map g xs)"
  by (induction xs) simp_all

lemma sum_list_sort_key:
  fixes g :: "'a \<Rightarrow> real"
  shows "sum_list (map g (sort_key f xs)) = sum_list (map g xs)"
  by (induction xs) (simp_all add: sum_list_insort_key)

lemma week_of_eq: "(\<lambda>r. the (r ''week'')) = week_of"
  by (simp add: week_of_def fun_eq_iff)

lemma sort_key_Nil_iff: "sort_key f xs = [] \<longleftrightarrow> xs = []"
  by (simp flip: length_0_conv)

lemma sort_values_week:
  "sort_values df ''week'' = Inr s \<longleftrightarrow>
     (\<forall>r \<in> set df. r ''week'' \<noteq> None) \<and> s = sort_key week_of df"
  by (auto simp: sort_values_def column_def week_of_eq)

lemma create_rolling_features_Inr:
  "create_rolling_features w df = Inr out \<longleftrightarrow>
     (\<forall>r \<in> set df. r ''week'' \<noteq> None) \<and>
     add_rolling w rolling_cols (sort_key week_of df) = Inr out"
  by (auto simp: create_rolling_features_def ebind_eq_Inr sort_values_week)

lemma smoothing_succeeds:
  assumes "team_week_stats df" "0 < w"
  shows "\<exists>out. create_rolling_features w df = Inr out"
proof -
  have "\<forall>r \<in> set (sort_key week_of df). \<forall>c \<in> set rolling_cols. r c \<noteq> None"
    using assms(1) by (simp add: team_week_stats_def)
  from add_rolling_succeeds [OF assms(2) this] show ?thesis
    using assms(1) by (simp add: create_rolling_features_Inr team_week_stats_def)
qed

lemma smoothing_shape:
  assumes "create_rolling_features w df = Inr out"
  shows "length out = length df"
    and "i < length df \<Longrightarrow> c \<in> set rolling_cols \<Longrightarrow>
           (out ! i) (rolling_name c w) =
             Some (window_mean w (colvals (sort_key week_of df) c) i)"
    and "i < length df \<Longrightarrow> k \<notin> (\<lambda>c. rolling_name c w) ` set rolling_cols \<Longrightarrow>
           (out ! i) k = (sort_key week_of df ! i) k"
    and "0 < w"
proof -
  from assms have run: "add_rolling w rolling_cols (sort_key week_of df) = Inr out"
    by (simp add: create_rolling_features_Inr)
  note sh = add_rolling_shape [OF run subset_refl]
  show "length out = length df" using sh by simp
  show "(out ! i) (rolling_name c w) =
          Some (window_mean w (colvals (sort_key week_of df) c) i)"
    if "i < length df" "c \<in> set rolling_cols"
    using sh that by simp
  show "(out ! i) k = (sort_key week_of df ! i) k"
    if "i < length df" "k \<notin> (\<lambda>c. rolling_name c w) ` set rolling_cols"
    using sh that by simp
  show "0 < w" by (rule add_rolling_needs [OF run]) (simp add: rolling_cols_def)
qed

text \<open>
  Claim C2. For a raw season table and a positive window, \<open>create_rolling_features\<close>
  returns a table of the same length whose rows are the input rows in ascending week
  order. For every raw field \<open>c\<close> and position \<open>i\<close>, the smoothed value is present and
  equals the arithmetic mean of \<open>c\<close> over positions \<open>max 0 (i - w + 1)\<close> to \<open>i\<close> of
  the sorted table. When the table is shorter than the window, the smoothed value of the
  last row is the mean of all raw values of the column.
\<close>

theorem rolling_is_trailing_mean:
  fixes w :: int and df :: dataframe and sorted_stats :: dataframe
  defines "sorted_stats \<equiv> sort_key (\<lambda>r. the (r ''week'')) df"
  assumes "team_week_stats df" and "0 < w"
  shows "\<exists>out. create_rolling_features w df = Inr out \<and> length out = length df \<and>
     (\<forall>c \<in> set rolling_cols. \<forall>i < length df.
        (out ! i) (rolling_name c w) =
          Some ((\<Sum>j = nat (max 0 (int i - w + 1))..i. the ((sorted_stats ! j) c))
                  / real (i - nat (max 0 (int i - w + 1)) + 1))) \<and>
     (\<forall>c \<in> set rolling_cols. df \<noteq> [] \<longrightarrow> int (length df) < w \<longrightarrow>
        (last out) (rolling_name c w) =
          Some (sum_list (map (\<lambda>r. the (r c)) df) / real (length df))) \<and>
     (\<forall>i < length df. \<forall>k. k \<notin> (\<lambda>c. rolling_name c w) ` set rolling_cols \<longrightarrow>
        (out ! i) k = (sorted_stats ! i) k)"
proof -
  have s: "sorted_stats = sort_key week_of df"
    unfolding sorted_stats_def week_of_eq ..
  from smoothing_succeeds [OF assms(2,3)] obtain out
    where out: "create_rolling_features w df = Inr out" ..
  note sh = smoothing_shape [OF out]
  have mean: "(out ! i) (rolling_name c w) =
      Some ((\<Sum>j = nat (max 0 (int i - w + 1))..i. the ((sorted_stats ! j) c))
              / real (i - nat (max 0 (int i - w + 1)) + 1))"
    if "c \<in> set rolling_cols" "i < length df" for c i
  proof -
    have "window_mean w (colvals sorted_stats c) i =
        (\<Sum>j = nat (max 0 (int i - w + 1))..i. colvals sorted_stats c ! j)
          / real (i - nat (max 0 (int i - w + 1)) + 1)"
      using that(2) assms(3) by (intro window_mean_sum) (simp_all add: s)
    also have "(\<Sum>j = nat (max 0 (int i - w + 1))..i. colvals sorted_stats c ! j) =
        (\<Sum>j = nat (max 0 (int i - w + 1))..i. the ((sorted_stats ! j) c))"
      using that(2) by (intro sum.cong) (simp_all add: colvals_def s)
    finally show ?thesis using sh(2) [OF that(2,1)] by (simp add: s)
  qed
  have all: "(last out) (rolling_name c w) =
      Some (sum_list (map (\<lambda>r. the (r c)) df) / real (length df))"
    if "c \<in> set rolling_cols" "df \<noteq> []" "int (length df) < w" for c
  proof -
    let ?xs = "colvals (sort_key week_of df) c"
    have ne: "out \<noteq> []" using sh(1) that(2) by auto
    have "last out = out ! (length df - 1)"
      using ne sh(1) by (simp add: last_conv_nth)
    moreover have "(out ! (length df - 1)) (rolling_name c w) =
        Some (window_mean w ?xs (length df - 1))"
      using that(1,2) by (intro sh(2)) simp_all
    moreover have "window_mean w ?xs (length ?xs - 1) = sum_list ?xs / real (length ?xs)"
      using that(2,3) by (intro window_mean_all) (simp_all add: colvals_def sort_key_Nil_iff)
    moreover have "sum_list ?xs = sum_list (map (\<lambda>r. the (r c)) df)"
      unfolding colvals_def by (rule sum_list_sort_key)
    ultimately show ?thesis by simp
  qed
  show ?thesis using out sh(1) sh(3) mean all unfolding s by blast
qed

text \<open>
  Claim C9. With a window of zero or less \<open>create_rolling_features\<close> returns no
  table, not even an empty one: it raises, and on a raw season table (an empty one too)
  the error is the ValueError of the rolling call. With a positive window it returns,
  on a raw season table, a table with one row per input row.
\<close>

theorem window_validation:
  "(w \<le> 0 \<longrightarrow>
      (\<exists>e. create_rolling_features w df = Inl e) \<and>
      (team_week_stats df \<longrightarrow> create_rolling_features w df = Inl ValueError)) \<and>
   (0 < w \<longrightarrow> team_week_stats df \<longrightarrow>
      (\<exists>out. create_rolling_features w df = Inr out \<and> length out = length df))"
proof (intro conjI impI)
  assume w: "w \<le> 0"
  have "create_rolling_features w df \<noteq> Inr out" for out
    using smoothing_shape(4) [of w df out] w by auto
  then show "\<exists>e. create_rolling_features w df = Inl e"
    by (cases "create_rolling_features w df") auto
next
  assume w: "w \<le> 0" and ok: "team_week_stats df"
  have wk: "sort_values df ''week'' = Inr (sort_key week_of df)"
    using ok by (simp add: sort_values_week team_week_stats_def)
  have "\<forall>r \<in> set (sort_key week_of df). r ''points'' \<noteq> None"
    using ok by (simp add: team_week_stats_def rolling_cols_def)
  from add_rolling_nonpos [OF w this]
  show "create_rolling_features w df = Inl ValueError"
    by (simp add: create_rolling_features_def wk rolling_cols_def del: add_rolling.simps)
next
  assume "0 < w" and ok: "team_week_stats df"
  from smoothing_succeeds [OF ok \<open>0 < w\<close>] obtain out
    where "create_rolling_features w df = Inr out" ..
  then show "\<exists>out. create_rolling_features w df = Inr out \<and> length out = length df"
    using smoothing_shape(1) by blast
qed

text \<open>
  The sort of the model against any other ascending sort: on a table whose weeks are
  all different, as a team's season table has them, every ascending arrangement of the
  rows is the one \<open>sort_values\<close> returns here.
\<close>

lemma filter_same_key:
  assumes "distinct (map k zs)" "x \<in> set zs"
  shows "filter (\<lambda>y. k x = k y) zs = [x]"
  using assms
proof (induction zs)
  case Nil
  then show ?case by simp
next
  case (Cons z zs)
  show ?case
  proof (cases "x = z")
    case True
    have "\<forall>y \<in> set zs. k z \<noteq> k y" using Cons.prems(1) by auto
    then have "filter (\<lambda>y. k z = k y) zs = []" by (simp add: filter_empty_conv)
    then show ?thesis using True by simp
  next
    case False
    then have x: "x \<in> set zs" using Cons.prems(2) by simp
    have "k z \<notin> k ` set zs" using Cons.prems(1) by simp
    moreover have "k x \<in> k ` set zs" using x by (rule imageI)
    ultimately have "k x \<noteq> k z" by metis
    moreover have "distinct (map k zs)" using Cons.prems(1) by simp
    ultimately show ?thesis using Cons.IH x by simp
  qed
qed

lemma sort_values_any_order:
  assumes "\<forall>r \<in> set df. r ''week'' \<noteq> None" and "distinct (map week_of df)"
    and "mset ys = mset df" and "sorted (map week_of ys)"
  shows "sort_values df ''week'' = Inr ys"
proof -
  have "mset (map week_of ys) = mset (map week_of df)" using assms(3) by simp
  from mset_eq_imp_distinct_iff [OF this] have dy: "distinct (map week_of ys)"
    using assms(2) by simp
  have set: "set ys = set df" using assms(3) by (rule mset_eq_setD)
  have "sort_key week_of df = ys"
  proof (rule properties_for_sort_key)
    show "mset ys = mset df" by fact
    show "sorted (map week_of ys)" by fact
    fix x assume x: "x \<in> set ys"
    then have "filter (\<lambda>y. week_of x = week_of y) ys = [x]"
      using dy by (intro filter_same_key)
    moreover have "filter (\<lambda>y. week_of x = week_of y) df = [x]"
      using assms(2) x set by (intro filter_same_key) simp_all
    ultimately show "filter (\<lambda>y. week_of x = week_of y) ys =
        filter (\<lambda>y. week_of x = week_of y) df" by simp
  qed
  then show ?thesis using assms(1) by (simp add: sort_values_week)
qed

section \<open>The smoother and the caller's table\<close>

text \<open>
  The loop on references writes only into the table its reference points to, and
  computes what the loop on values computes.
\<close>

lemma add_rolling_ref_frame:
  assumes "a < length st"
  shows "case add_rolling_ref w cs a st of (r, st') \<Rightarrow>
           length st' = length st \<and>
           (\<forall>b < length st. b \<noteq> a \<longrightarrow> st' ! b = st ! b) \<and>
           (case r of
              Inl e \<Rightarrow> add_rolling w cs (st ! a) = Inl e
            | Inr b \<Rightarrow> b = a \<and> add_rolling w cs (st ! a) = Inr (st' ! a))"
  using assms
proof (induction cs arbitrary: st)
  case Nil
  then show ?case by simp
next
  case (Cons c cs)
  show ?case
  proof (cases "column (st ! a) c")
    case (Inl e)
    then show ?thesis by simp
  next
    case xs: (Inr xs)
    show ?thesis
    proof (cases "rolling_mean w xs")
      case (Inl e)
      then show ?thesis using xs by simp
    next
      case m: (Inr m)
      let ?st = "st[a := set_column (st ! a) (rolling_name c w) m]"
      have a: "a < length ?st" using Cons.prems by simp
      have at: "?st ! a = set_column (st ! a) (rolling_name c w) m"
        using Cons.prems by simp
      from Cons.IH [OF a] show ?thesis
        using xs m at by (auto split: prod.splits sum.splits)
    qed
  qed
qed

text \<open>
  Claim C10. After \<open>create_rolling_features\<close> is called with a reference to the
  caller's table, every table that existed before the call is what it was, the caller's
  table among them: same rows, same order, same columns, same values. When the call
  returns, its result is a reference to a table made during the call, and that table is
  the result of the smoother on values; when it raises, the smoother on values raises
  the same error.
\<close>

theorem caller_table_unchanged:
  assumes "team_stats < length st"
  shows "case create_rolling_features_ref w team_stats st of (r, st') \<Rightarrow>
           take (length st) st' = st \<and> st' ! team_stats = st ! team_stats \<and>
           (case r of
              Inl e \<Rightarrow> create_rolling_features w (st ! team_stats) = Inl e
            | Inr b \<Rightarrow> length st \<le> b \<and> b < length st' \<and>
                create_rolling_features w (st ! team_stats) = Inr (st' ! b))"
proof (cases "sort_values (st ! team_stats) ''week''")
  case (Inl e)
  then show ?thesis
    by (simp add: create_rolling_features_ref_def sort_values_ref_def
        create_rolling_features_def)
next
  case (Inr s)
  let ?st = "st @ [s]"
  have a: "length st < length ?st" by simp
  obtain r st' where run: "add_rolling_ref w rolling_cols (length st) ?st = (r, st')"
    by (cases "add_rolling_ref w rolling_cols (length st) ?st")
  from add_rolling_ref_frame [OF a, of w rolling_cols] run
  have len: "length st' = Suc (length st)"
    and old: "\<forall>b < length st. st' ! b = st ! b"
    and res: "case r of
          Inl e \<Rightarrow> add_rolling w rolling_cols s = Inl e
        | Inr b \<Rightarrow> b = length st \<and> add_rolling w rolling_cols s = Inr (st' ! length st)"
    by (auto simp: nth_append split: sum.splits)
  have "take (length st) st' = st"
    using len old by (intro nth_equalityI) simp_all
  moreover have "st' ! team_stats = st ! team_stats" using old assms by simp
  moreover have "case r of
        Inl e \<Rightarrow> create_rolling_features w (st ! team_stats) = Inl e
      | Inr b \<Rightarrow> length st \<le> b \<and> b < length st' \<and>
          create_rolling_features w (st ! team_stats) = Inr (st' ! b)"
    using res len Inr by (auto simp: create_rolling_features_def split: sum.splits)
  ultimately show ?thesis
    using Inr run by (simp add: create_rolling_features_ref_def sort_values_ref_def)
qed

section \<open>Matchup features\<close>

lemma smoothed_row_getitem:
  "smoothed_row w r \<Longrightarrow> c \<in> set rolling_cols \<Longrightarrow>
     getitem r (rolling_name c w) = Inr (smoothed_value w r c)"
  by (auto simp: smoothed_row_def smoothed_value_def getitem_def)

lemma matchup_last:
  assumes "smoothed_row w a" "smoothed_row w b"
  shows "create_matchup_features w (xs @ [a]) (ys @ [b]) =
           Inr [features_of (smoothed_value w a) (smoothed_value w b)]"
  using assms
  by (simp add: create_matchup_features_def smoothed_row_getitem rolling_cols_def
      diff_of_def scaled_def features_of_def)

lemma matchup_only_last:
  "create_matchup_features w (xs @ [a]) (ys @ [b]) = create_matchup_features w [a] [b]"
  by (simp add: create_matchup_features_def)

lemma matchup_on_empty:
  "create_matchup_features w [] t2 = Inl IndexError"
  "create_matchup_features w t1 [] = Inl IndexError"
  by (cases t1 rule: rev_cases; simp add: create_matchup_features_def)+

lemma str_int_5: "str_int 5 = ''5''" by (simp add: str_int_def)

lemma matchup_nonempty:
  assumes "team1 \<noteq> []" "team2 \<noteq> []" "smoothed_row w (last team1)" "smoothed_row w (last team2)"
  shows "create_matchup_features w team1 team2 =
           Inr [features_of (smoothed_value w (last team1)) (smoothed_value w (last team2))]"
proof -
  from assms(1) obtain xs a where t1: "team1 = xs @ [a]" by (cases team1 rule: rev_cases) auto
  from assms(2) obtain ys b where t2: "team2 = ys @ [b]" by (cases team2 rule: rev_cases) auto
  show ?thesis using assms(3,4) unfolding t1 t2 by (simp add: matchup_last)
qed

text \<open>
  Claim C3. For two non-empty tables whose last rows are smoothed for the window,
  \<open>create_matchup_features\<close> returns exactly one row. With \<open>s1\<close> and \<open>s2\<close> the
  smoothed values of the two last rows, the three weighted differences are
  \<open>2.0 * (s1 - s2)\<close> on def\_epa, pts\_allowed and sacks, net\_pts\_diff is
  \<open>(s1 points - s1 pts_allowed) - (s2 points - s2 pts_allowed)\<close>, the four plain
  differences and the four absolute fields are read off the same two rows, and the row
  has no other field.
\<close>

theorem matchup_fields:
  fixes w :: int and team1 team2 :: dataframe and s1 s2 :: "string \<Rightarrow> real"
  defines "s1 \<equiv> smoothed_value w (last team1)" and "s2 \<equiv> smoothed_value w (last team2)"
  assumes "team1 \<noteq> []" "team2 \<noteq> []"
    and "smoothed_row w (last team1)" "smoothed_row w (last team2)"
  shows "\<exists>f. create_matchup_features w team1 team2 = Inr [f] \<and>
     f ''def_epa_diff'' = Some (2.0 * (s1 ''def_epa'' - s2 ''def_epa'')) \<and>
     f ''pts_allowed_diff'' = Some (2.0 * (s1 ''pts_allowed'' - s2 ''pts_allowed'')) \<and>
     f ''sacks_diff'' = Some (2.0 * (s1 ''sacks'' - s2 ''sacks'')) \<and>
     f ''net_pts_diff'' =
        Some ((s1 ''points'' - s1 ''pts_allowed'') - (s2 ''points'' - s2 ''pts_allowed'')) \<and>
     f ''pts_diff'' = Some (s1 ''points'' - s2 ''points'') \<and>
     f ''epa_diff'' = Some (s1 ''epa'' - s2 ''epa'') \<and>
     f ''success_diff'' = Some (s1 ''success'' - s2 ''success'') \<and>
     f ''turnover_diff'' = Some (s1 ''turnovers'' - s2 ''turnovers'') \<and>
     f ''t1_epa'' = Some (s1 ''epa'') \<and> f ''t2_epa'' = Some (s2 ''epa'') \<and>
     f ''t1_success'' = Some (s1 ''success'') \<and> f ''t2_success'' = Some (s2 ''success'') \<and>
     dom f = set diff_fields \<union> {''t1_epa'', ''t2_epa'', ''t1_success'', ''t2_success''}"
  unfolding s1_def s2_def matchup_nonempty [OF assms(3-6)]
  by (auto simp: features_of_def diff_fields_def)

lemma form_smoothed: "smoothed_row 5 form_a" "smoothed_row 5 form_b"
  by (simp_all add: form_a_def form_b_def smoothed_example_def smoothed_row_def
      rolling_cols_def rolling_name_def str_int_5 del: not_None_eq)

lemma form_values:
  "map (smoothed_value 5 form_a) rolling_cols = [24, 3, 1, 2, 18, 1, 3]"
  "map (smoothed_value 5 form_b) rolling_cols = [16, 1, 0, 1, 21, 2, 1]"
  by (simp_all add: form_a_def form_b_def smoothed_example_def smoothed_value_def
      rolling_cols_def rolling_name_def str_int_5)

theorem matchup_fields_witness:
  "\<exists>f. create_matchup_features 5 [form_a] [form_b] = Inr [f] \<and>
       f ''pts_diff'' = Some 8 \<and> f ''def_epa_diff'' = Some 2 \<and>
       f ''pts_allowed_diff'' = Some (- 6) \<and> f ''sacks_diff'' = Some 4 \<and>
       f ''net_pts_diff'' = Some 11 \<and> f ''t1_epa'' = Some 3 \<and> f ''t2_epa'' = Some 1"
  using matchup_fields [of "[form_a]" "[form_b]" 5] form_smoothed form_values
  by (simp add: rolling_cols_def) blast

text \<open>
  Claim C4. Swapping the two tables negates each of the eight differential fields and
  exchanges each \<open>t1_*\<close> field with its \<open>t2_*\<close> partner; after the swap the three
  weighted fields are still exactly \<open>2.0\<close> times the difference of the smoothed
  values, now team 2 minus team 1.
\<close>

theorem matchup_swap:
  fixes w :: int and team1 team2 :: dataframe and s1 s2 :: "string \<Rightarrow> real"
  defines "s1 \<equiv> smoothed_value w (last team1)" and "s2 \<equiv> smoothed_value w (last team2)"
  assumes "team1 \<noteq> []" "team2 \<noteq> []"
    and "smoothed_row w (last team1)" "smoothed_row w (last team2)"
  shows "\<exists>f g. create_matchup_features w team1 team2 = Inr [f] \<and>
     create_matchup_features w team2 team1 = Inr [g] \<and>
     (\<forall>k \<in> set diff_fields. \<exists>v. f k = Some v \<and> g k = Some (- v)) \<and>
     g ''t1_epa'' = f ''t2_epa'' \<and> g ''t2_epa'' = f ''t1_epa'' \<and>
     g ''t1_success'' = f ''t2_success'' \<and> g ''t2_success'' = f ''t1_success'' \<and>
     g ''def_epa_diff'' = Some (2.0 * (s2 ''def_epa'' - s1 ''def_epa'')) \<and>
     g ''pts_allowed_diff'' = Some (2.0 * (s2 ''pts_allowed'' - s1 ''pts_allowed'')) \<and>
     g ''sacks_diff'' = Some (2.0 * (s2 ''sacks'' - s1 ''sacks''))"
  unfolding s1_def s2_def matchup_nonempty [OF assms(3-6)] matchup_nonempty [OF assms(4,3,6,5)]
  by (simp add: features_of_def diff_fields_def)

theorem matchup_swap_witness:
  "\<exists>f g. create_matchup_features 5 [form_a] [form_b] = Inr [f] \<and>
     create_matchup_features 5 [form_b] [form_a] = Inr [g] \<and>
     (\<forall>k \<in> set diff_fields. \<exists>v. f k = Some v \<and> g k = Some (- v)) \<and>
     g ''t1_epa'' = f ''t2_epa'' \<and> g ''t2_epa'' = f ''t1_epa'' \<and>
     g ''pts_allowed_diff'' = Some 6 \<and> g ''sacks_diff'' = Some (- 4)"
  using matchup_swap [of "[form_a]" "[form_b]" 5] form_smoothed form_values
  by (simp add: rolling_cols_def) blast

text \<open>
  Claim C8. \<open>create_matchup_features\<close> raises the IndexError of \<^verbatim>\<open>iloc[-1]\<close> when
  either table has no rows (this is the spec's EmptyInputError): it returns no feature
  row, so no default value stands in for the missing snapshot. On tables with rows the
  result is the one computed from the two last rows alone.
\<close>

theorem matchup_empty_fails:
  "create_matchup_features w [] team2 = Inl IndexError \<and>
   create_matchup_features w team1 [] = Inl IndexError \<and>
   create_matchup_features w (xs @ [a]) (ys @ [b]) = create_matchup_features w [a] [b]"
  by (simp add: matchup_on_empty matchup_only_last)

theorem matchup_empty_fails_witness:
  "create_matchup_features 5 [] [form_b] = Inl IndexError \<and>
   create_matchup_features 5 [form_a] [] = Inl IndexError \<and>
   create_matchup_features 5 [Map.empty, form_a] [form_a, Map.empty, form_b] =
     create_matchup_features 5 [form_a] [form_b]"
  using matchup_empty_fails [of 5 "[form_b]" "[form_a]" "[Map.empty]" form_a
      "[form_a, Map.empty]" form_b]
  by simp

section \<open>Training set\<close>

lemma rows_below_week:
  "\<forall>r \<in> set df. r ''week'' \<noteq> None \<Longrightarrow> rows_below df ''week'' b = Inr (prior_rows df b)"
  by (simp add: rows_below_def column_def prior_rows_def week_of_def)

lemma team_readyE:
  assumes "team_ready w stats t"
  obtains df where "stats t = Some df" "smoothed_table w df"
  using assms by (auto simp: team_ready_def split: option.splits)

lemma smoothed_last_prior:
  assumes "smoothed_table w df" "prior_rows df b \<noteq> []"
  shows "smoothed_row w (last (prior_rows df b))"
proof -
  have "last (prior_rows df b) \<in> set (prior_rows df b)" using assms(2) by (rule last_in_set)
  then have "last (prior_rows df b) \<in> set df" by (simp add: prior_rows_def)
  then show ?thesis using assms(1) by (simp add: smoothed_table_def)
qed

text \<open>One pass of the loop, for a game whose two teams have smoothed tables in the dict.\<close>

lemma game_features_ready:
  assumes "team_ready w stats (home_team g)" "team_ready w stats (away_team g)"
  shows "game_features w stats g =
     (if 3 \<le> prior_weeks stats (home_team g) (week g) \<and>
         3 \<le> prior_weeks stats (away_team g) (week g)
      then Inr (Some [training_row w stats g]) else Inr None)"
proof -
  from assms(1) obtain H where H: "stats (home_team g) = Some H" "smoothed_table w H"
    by (rule team_readyE)
  from assms(2) obtain A where A: "stats (away_team g) = Some A" "smoothed_table w A"
    by (rule team_readyE)
  have rb: "rows_below H ''week'' (week g) = Inr (prior_rows H (week g))"
    "rows_below A ''week'' (week g) = Inr (prior_rows A (week g))"
    using H(2) A(2) by (simp_all add: rows_below_week smoothed_table_def)
  show ?thesis
  proof (cases "3 \<le> length (prior_rows H (week g)) \<and> 3 \<le> length (prior_rows A (week g))")
    case False
    then show ?thesis
      using H(1) A(1) rb by (auto simp: game_features_def team_table_def prior_weeks_def)
  next
    case True
    then have ne: "prior_rows H (week g) \<noteq> []" "prior_rows A (week g) \<noteq> []" by auto
    have "create_matchup_features w (prior_rows H (week g)) (prior_rows A (week g)) =
        Inr [features_of (smoothed_value w (last (prior_rows H (week g))))
                         (smoothed_value w (last (prior_rows A (week g))))]"
      using ne H(2) A(2) by (intro matchup_nonempty smoothed_last_prior)
    then show ?thesis
      using True H(1) A(1) rb
      by (simp add: game_features_def team_table_def prior_weeks_def training_row_def
          current_form_def set_scalar_def)
  qed
qed

lemma training_loop_ready:
  assumes "\<forall>g \<in> set gs. team_ready w stats (home_team g) \<and> team_ready w stats (away_team g)"
  shows "training_loop w stats gs acc =
     Inr (acc @ map (\<lambda>g. [training_row w stats g])
                    (filter (\<lambda>g. 3 \<le> prior_weeks stats (home_team g) (week g) \<and>
                                  3 \<le> prior_weeks stats (away_team g) (week g)) gs))"
  using assms
proof (induction gs arbitrary: acc)
  case Nil
  then show ?case by simp
next
  case (Cons g gs)
  then have "game_features w stats g =
     (if 3 \<le> prior_weeks stats (home_team g) (week g) \<and>
         3 \<le> prior_weeks stats (away_team g) (week g)
      then Inr (Some [training_row w stats g]) else Inr None)"
    by (intro game_features_ready) simp_all
  then show ?case using Cons by simp
qed

lemma filter_completed:
  "filter (\<lambda>g. 3 \<le> prior_weeks stats (home_team g) (week g) \<and>
               3 \<le> prior_weeks stats (away_team g) (week g)) (completed sched) =
   filter (eligible stats) sched"
  by (induction sched) (auto simp: completed_def eligible_def)

text \<open>
  Claim C5. When the teams of every regular-season game have smoothed tables in the
  dict, the loop of \<open>prepare_training_data\<close> collects one one-row table for each
  eligible game of the schedule, in schedule order, and nothing for any other game: a
  game contributes a row exactly when it is a regular-season game and both teams have
  at least three rows before its week. The function returns these rows when there is
  at least one, and raises the ValueError of the concatenation when there is none.
\<close>

theorem minimum_history_rows:
  assumes "\<forall>g \<in> set sched. game_type g = ''REG'' \<longrightarrow>
             team_ready w stats (home_team g) \<and> team_ready w stats (away_team g)"
  shows "training_loop w stats (completed sched) [] =
           Inr (map (\<lambda>g. [training_row w stats g]) (filter (eligible stats) sched)) \<and>
         prepare_training_data w stats sched =
           (if filter (eligible stats) sched = [] then Inl ValueError
            else Inr (map (training_row w stats) (filter (eligible stats) sched)))"
proof -
  have "\<forall>g \<in> set (completed sched).
      team_ready w stats (home_team g) \<and> team_ready w stats (away_team g)"
    using assms by (simp add: completed_def)
  from training_loop_ready [OF this, of "[]"]
  have loop: "training_loop w stats (completed sched) [] =
      Inr (map (\<lambda>g. [training_row w stats g]) (filter (eligible stats) sched))"
    by (simp add: filter_completed)
  have "concat (map (\<lambda>g. [training_row w stats g]) gs) = map (training_row w stats) gs" for gs
    by (induction gs) simp_all
  then show ?thesis
    using loop by (simp add: prepare_training_data_def pd_concat_def)
qed

lemma prepare_training_data_ready:
  assumes "\<forall>g \<in> set sched. game_type g = ''REG'' \<longrightarrow>
             team_ready w stats (home_team g) \<and> team_ready w stats (away_team g)"
    and "filter (eligible stats) sched \<noteq> []"
  shows "prepare_training_data w stats sched =
           Inr (map (training_row w stats) (filter (eligible stats) sched))"
proof -
  have "\<forall>g \<in> set (completed sched).
      team_ready w stats (home_team g) \<and> team_ready w stats (away_team g)"
    using assms(1) by (simp add: completed_def)
  from training_loop_ready [OF this, of "[]"]
  have loop: "training_loop w stats (completed sched) [] =
      Inr (map (\<lambda>g. [training_row w stats g]) (filter (eligible stats) sched))"
    by (simp add: filter_completed)
  have "concat (map (\<lambda>g. [training_row w stats g]) gs) = map (training_row w stats) gs" for gs
    by (induction gs) simp_all
  then show ?thesis
    using loop assms(2) by (simp add: prepare_training_data_def pd_concat_def)
qed

text \<open>
  Claim C6. When the teams of every regular-season game have smoothed tables in the
  dict and at least one game is eligible, \<open>prepare_training_data\<close> returns one row
  per eligible game, in schedule order. The row of an eligible game is the one its pass
  of the loop produced; its home\_win is 1 when the game's home score is above its away
  score and 0 otherwise, a tie included, and its point\_diff is the game's home score
  minus its away score.
\<close>

theorem training_labels:
  fixes w :: int and stats :: "string \<rightharpoonup> dataframe" and sched games :: "game list"
  defines "games \<equiv> filter (eligible stats) sched"
  assumes "\<forall>g \<in> set sched. game_type g = ''REG'' \<longrightarrow>
             team_ready w stats (home_team g) \<and> team_ready w stats (away_team g)"
    and "games \<noteq> []"
  shows "\<exists>rows. prepare_training_data w stats sched = Inr rows \<and>
     length rows = length games \<and>
     (\<forall>i < length games.
        game_features w stats (games ! i) = Inr (Some [rows ! i]) \<and>
        (rows ! i) ''home_win'' =
          Some (if home_score (games ! i) > away_score (games ! i) then 1 else 0) \<and>
        (rows ! i) ''point_diff'' = Some (home_score (games ! i) - away_score (games ! i)))"
proof -
  have run: "prepare_training_data w stats sched = Inr (map (training_row w stats) games)"
    unfolding games_def using assms(2,3) unfolding games_def
    by (rule prepare_training_data_ready)
  have pass: "game_features w stats (games ! i) = Inr (Some [training_row w stats (games ! i)])"
    if "i < length games" for i
  proof -
    have g: "games ! i \<in> set games" using that by simp
    then have el: "eligible stats (games ! i)" and "games ! i \<in> set sched"
      by (simp_all add: games_def)
    then have "team_ready w stats (home_team (games ! i))"
      "team_ready w stats (away_team (games ! i))"
      using assms(2) by (simp_all add: eligible_def)
    then show ?thesis using el by (simp add: game_features_ready eligible_def)
  qed
  show ?thesis
    using run pass by (simp add: training_row_def)
qed

section \<open>No leakage\<close>

text \<open>
  In a table sorted by week the rows before a week are a prefix, and a window mean at a
  position reads nothing after that position. So the rows before a week of a smoothed
  table depend only on the rows before that week of the raw table.
\<close>

lemma sorted_filter_below:
  fixes k :: "'a \<Rightarrow> real"
  assumes "sorted (map k xs)"
  shows "filter (\<lambda>r. k r < b) xs = takeWhile (\<lambda>r. k r < b) xs"
  using assms
proof (induction xs)
  case Nil
  then show ?case by simp
next
  case (Cons x xs)
  show ?case
  proof (cases "k x < b")
    case True
    then show ?thesis using Cons by simp
  next
    case False
    then have "\<forall>y \<in> set xs. \<not> k y < b" using Cons.prems by auto
    then have "filter (\<lambda>r. k r < b) xs = []" by (simp add: filter_empty_conv)
    then show ?thesis using False by simp
  qed
qed

lemma sorted_filter_take:
  fixes k :: "'a \<Rightarrow> real"
  assumes "sorted (map k xs)"
  shows "filter (\<lambda>r. k r < b) xs = take (length (filter (\<lambda>r. k r < b) xs)) xs"
  unfolding sorted_filter_below [OF assms] by (rule takeWhile_eq_take)

lemma window_at_prefix:
  assumes "i < n"
  shows "window_at w (take n xs) i = window_at w xs i"
proof -
  let ?start = "nat (int (i + 1) - w)"
  have "take (i + 1 - ?start) (drop ?start (take n xs)) =
        take (i + 1 - ?start) (take (n - ?start) (drop ?start xs))"
    by (simp add: drop_take)
  also have "\<dots> = take (i + 1 - ?start) (drop ?start xs)"
    using assms by (simp add: min_def)
  finally show ?thesis by (simp add: window_at_def Let_def)
qed

lemma window_mean_prefix:
  assumes "i < n" "take n xs = take n ys"
  shows "window_mean w xs i = window_mean w ys i"
proof -
  have "window_at w xs i = window_at w (take n xs) i"
    using assms(1) by (simp add: window_at_prefix)
  also have "\<dots> = window_at w ys i"
    using assms by (simp add: window_at_prefix)
  finally show ?thesis by (simp add: window_mean_def)
qed

lemma prior_rows_sorted:
  "prior_rows (sort_key week_of df) b = sort_key week_of (prior_rows df b)"
  unfolding prior_rows_def by (rule filter_sort)

lemma prior_rows_sorted_take:
  "prior_rows (sort_key week_of df) b =
     take (length (prior_rows df b)) (sort_key week_of df)"
proof -
  have "prior_rows (sort_key week_of df) b =
      take (length (prior_rows (sort_key week_of df) b)) (sort_key week_of df)"
    unfolding prior_rows_def by (rule sorted_filter_take) simp
  then show ?thesis by (simp add: prior_rows_sorted)
qed

lemma week_not_rolling: "''week'' \<notin> (\<lambda>c. rolling_name c w) ` set rolling_cols"
  using rolling_name_not_raw(2) by fastforce

lemma smoothed_weeks:
  assumes "create_rolling_features w df = Inr out"
  shows "map week_of out = map week_of (sort_key week_of df)"
proof (rule nth_equalityI)
  show "length (map week_of out) = length (map week_of (sort_key week_of df))"
    using smoothing_shape(1) [OF assms] by simp
next
  fix i assume "i < length (map week_of out)"
  then have i: "i < length df" using smoothing_shape(1) [OF assms] by simp
  have "(out ! i) ''week'' = (sort_key week_of df ! i) ''week''"
    using i week_not_rolling by (rule smoothing_shape(3) [OF assms])
  then show "map week_of out ! i = map week_of (sort_key week_of df) ! i"
    using i smoothing_shape(1) [OF assms] by (simp add: week_of_def)
qed

lemma prior_rows_length_map:
  "length (prior_rows df b) = length (filter (\<lambda>v. v < b) (map week_of df))"
  by (simp add: prior_rows_def filter_map comp_def)

lemma prior_rows_smoothed:
  assumes "create_rolling_features w df = Inr out"
  shows "prior_rows out b = take (length (prior_rows df b)) out"
proof -
  have srt: "sorted (map week_of out)"
    unfolding smoothed_weeks [OF assms] by simp
  have "length (prior_rows out b) = length (prior_rows (sort_key week_of df) b)"
    unfolding prior_rows_length_map smoothed_weeks [OF assms] ..
  also have "\<dots> = length (prior_rows df b)"
    by (simp add: prior_rows_sorted)
  finally have n: "length (prior_rows out b) = length (prior_rows df b)" .
  have "prior_rows out b = take (length (prior_rows out b)) out"
    unfolding prior_rows_def using srt by (rule sorted_filter_take)
  then show ?thesis using n by simp
qed

lemma length_prior_rows_le: "length (prior_rows df b) \<le> length df"
  by (simp add: prior_rows_def)

lemma smoothed_prefix_agree:
  assumes out1: "create_rolling_features w df1 = Inr out1"
    and out2: "create_rolling_features w df2 = Inr out2"
    and same: "prior_rows df1 b = prior_rows df2 b"
  shows "prior_rows out1 b = prior_rows out2 b"
proof -
  let ?n = "length (prior_rows df1 b)"
  let ?s1 = "sort_key week_of df1" and ?s2 = "sort_key week_of df2"
  have n1: "?n \<le> length df1" by (rule length_prior_rows_le)
  have n2: "?n \<le> length df2" unfolding same by (rule length_prior_rows_le)
  have pre: "take ?n ?s1 = take ?n ?s2"
    using prior_rows_sorted_take [of df1 b] prior_rows_sorted_take [of df2 b] same
    by (simp add: prior_rows_sorted)
  have row: "out1 ! i = out2 ! i" if i: "i < ?n" for i
  proof (rule ext)
    fix k
    have i1: "i < length df1" and i2: "i < length df2" using i n1 n2 by auto
    have at: "?s1 ! i = ?s2 ! i"
      using i pre by (metis nth_take)
    show "(out1 ! i) k = (out2 ! i) k"
    proof (cases "k \<in> (\<lambda>c. rolling_name c w) ` set rolling_cols")
      case False
      then show ?thesis
        using smoothing_shape(3) [OF out1 i1 False] smoothing_shape(3) [OF out2 i2 False] at
        by simp
    next
      case True
      then obtain c where c: "c \<in> set rolling_cols" "k = rolling_name c w" by auto
      have "take ?n (colvals ?s1 c) = take ?n (colvals ?s2 c)"
        using pre by (simp add: colvals_def take_map)
      with i have "window_mean w (colvals ?s1 c) i = window_mean w (colvals ?s2 c) i"
        by (rule window_mean_prefix)
      then show ?thesis
        using smoothing_shape(2) [OF out1 i1 c(1)] smoothing_shape(2) [OF out2 i2 c(1)] c(2)
        by simp
    qed
  qed
  have "take ?n out1 = take ?n out2"
    using n1 n2 row smoothing_shape(1) [OF out1] smoothing_shape(1) [OF out2]
    by (intro nth_equalityI) simp_all
  then show ?thesis
    using prior_rows_smoothed [OF out1, of b] prior_rows_smoothed [OF out2, of b] same
    by simp
qed

lemma smoothed_has_week:
  assumes "create_rolling_features w df = Inr out"
  shows "\<forall>r \<in> set out. r ''week'' \<noteq> None"
proof
  fix r assume "r \<in> set out"
  then obtain i where i: "i < length out" "r = out ! i" by (auto simp: in_set_conv_nth)
  then have i': "i < length df" using smoothing_shape(1) [OF assms] by simp
  have "sort_key week_of df ! i \<in> set df"
    using i' by (metis length_sort nth_mem set_sort)
  moreover have "\<forall>r \<in> set df. r ''week'' \<noteq> None"
    using assms by (simp add: create_rolling_features_Inr)
  ultimately show "r ''week'' \<noteq> None"
    using smoothing_shape(3) [OF assms i' week_not_rolling] i(2) by simp
qed

lemma collect_team_stats_Inr:
  assumes "collect_team_stats w season teams acc = Inr m"
  shows "(t \<notin> set teams \<longrightarrow> m t = acc t) \<and>
         (t \<in> set teams \<longrightarrow> (\<exists>s. m t = Some s \<and> create_rolling_features w (season t) = Inr s))"
  using assms
proof (induction teams arbitrary: acc)
  case Nil
  then show ?case by simp
next
  case (Cons t' ts)
  from Cons.prems obtain s' where s': "create_rolling_features w (season t') = Inr s'"
    and run: "collect_team_stats w season ts (acc(t' \<mapsto> s')) = Inr m"
    by (auto simp: ebind_eq_Inr)
  from Cons.IH [OF run] show ?case using s' by auto
qed

lemma game_features_prior_of:
  "game_features w stats g =
     ebind (prior_of stats (home_team g) (week g)) (\<lambda>home_stats.
     ebind (prior_of stats (away_team g) (week g)) (\<lambda>away_stats.
     if length home_stats < 3 \<or> length away_stats < 3 then Inr None
     else
       ebind (create_matchup_features w home_stats away_stats) (\<lambda>features.
       Inr (Some
         (set_scalar
            (set_scalar features ''home_win'' (if home_score g > away_score g then 1 else 0))
            ''point_diff'' (home_score g - away_score g))))))"
  unfolding game_features_def prior_of_def
  by (cases "team_table stats (home_team g)"; cases "team_table stats (away_team g)") simp_all

lemma prior_of_collect:
  assumes c1: "collect_team_stats w season1 teams Map.empty = Inr all1"
    and c2: "collect_team_stats w season2 teams Map.empty = Inr all2"
    and same: "prior_rows (season1 t) b = prior_rows (season2 t) b"
  shows "prior_of all1 t b = prior_of all2 t b"
proof (cases "t \<in> set teams")
  case False
  then have "all1 t = None" "all2 t = None"
    using collect_team_stats_Inr [OF c1, of t] collect_team_stats_Inr [OF c2, of t] by simp_all
  then show ?thesis by (simp add: prior_of_def team_table_def)
next
  case True
  from collect_team_stats_Inr [OF c1, of t] True obtain s1
    where s1: "all1 t = Some s1" "create_rolling_features w (season1 t) = Inr s1" by auto
  from collect_team_stats_Inr [OF c2, of t] True obtain s2
    where s2: "all2 t = Some s2" "create_rolling_features w (season2 t) = Inr s2" by auto
  have "prior_rows s1 b = prior_rows s2 b"
    using s1(2) s2(2) same by (rule smoothed_prefix_agree)
  then show ?thesis
    using s1 s2 smoothed_has_week
    by (simp add: prior_of_def team_table_def rows_below_week)
qed

text \<open>
  Claim C1. Let \<open>main\<close> build the dict of smoothed tables from two seasons of raw
  tables, each smoothed over the whole season. If, for both teams of a game, the two
  seasons have the same rows with week below the game's week, then the pass of the
  training loop for that game gives the same result on both dicts: the training row is
  a function of the two teams' rows of strictly earlier weeks only.
\<close>

theorem features_ignore_later_weeks:
  assumes "collect_team_stats w season1 teams Map.empty = Inr all1"
    and "collect_team_stats w season2 teams Map.empty = Inr all2"
    and "\<forall>t \<in> {home_team g, away_team g}.
           filter (\<lambda>r. the (r ''week'') < week g) (season1 t) =
           filter (\<lambda>r. the (r ''week'') < week g) (season2 t)"
  shows "game_features w all1 g = game_features w all2 g"
proof -
  have h: "prior_rows (season1 (home_team g)) (week g) =
           prior_rows (season2 (home_team g)) (week g)"
    and a: "prior_rows (season1 (away_team g)) (week g) =
            prior_rows (season2 (away_team g)) (week g)"
    using assms(3) unfolding prior_rows_def week_of_def by blast+
  have "prior_of all1 (home_team g) (week g) = prior_of all2 (home_team g) (week g)"
    by (rule prior_of_collect [OF assms(1,2) h])
  moreover have "prior_of all1 (away_team g) (week g) = prior_of all2 (away_team g) (week g)"
    by (rule prior_of_collect [OF assms(1,2) a])
  ultimately show ?thesis by (simp only: game_features_prior_of)
qed

section \<open>The statements at concrete inputs\<close>

lemma team_a_stats: "team_week_stats team_a" "team_week_stats team_b" "team_week_stats team_a_late"
  by (simp_all add: team_week_stats_def team_a_def team_b_def team_a_late_def stat_row_def rolling_cols_def)

lemma collect_succeeds:
  assumes "0 < w" "\<forall>t \<in> set teams. team_week_stats (season t)"
  shows "\<exists>m. collect_team_stats w season teams acc = Inr m"
  using assms(2)
proof (induction teams arbitrary: acc)
  case Nil
  then show ?case by simp
next
  case (Cons t ts)
  from Cons.prems have "team_week_stats (season t)" by simp
  from smoothing_succeeds [OF this assms(1)] obtain s
    where "create_rolling_features w (season t) = Inr s" ..
  then show ?case using Cons by simp
qed

theorem window_validation_witness:
  "team_week_stats team_a \<and> create_rolling_features 0 team_a = Inl ValueError \<and>
   create_rolling_features (- 3) team_a = Inl ValueError \<and>
   (\<exists>e. create_rolling_features 0 [Map.empty] = Inl e) \<and>
   (\<exists>out. create_rolling_features 5 team_a = Inr out \<and> length out = length team_a)"
  using window_validation [of 0 team_a] window_validation [of "- 3" team_a]
    window_validation [of 0 "[Map.empty]"] window_validation [of 5 team_a] team_a_stats(1)
  by simp

theorem caller_table_unchanged_witness:
  "case create_rolling_features_ref 5 0 [team_a, team_b] of
     (r, st') \<Rightarrow> take (length [team_a, team_b]) st' = [team_a, team_b] \<and> st' ! 0 = team_a"
  using caller_table_unchanged [of 0 "[team_a, team_b]" 5]
  by (auto split: prod.splits)

theorem features_ignore_later_weeks_witness:
  "\<exists>all1 all2.
     collect_team_stats 5 season_one [''SEA'', ''NE''] Map.empty = Inr all1 \<and>
     collect_team_stats 5 season_two [''SEA'', ''NE''] Map.empty = Inr all2 \<and>
     season_one ''SEA'' \<noteq> season_two ''SEA'' \<and>
     game_features 5 all1 (week6 24 10 ''REG''\<lparr>week := 4\<rparr>) =
     game_features 5 all2 (week6 24 10 ''REG''\<lparr>week := 4\<rparr>)"
proof -
  have ok: "\<forall>t \<in> set [''SEA'', ''NE'']. team_week_stats (season_one t)"
    "\<forall>t \<in> set [''SEA'', ''NE'']. team_week_stats (season_two t)"
    by (simp_all add: season_one_def season_two_def team_a_stats)
  from collect_succeeds [OF _ ok(1), of 5 Map.empty] obtain all1
    where a1: "collect_team_stats 5 season_one [''SEA'', ''NE''] Map.empty = Inr all1" by auto
  from collect_succeeds [OF _ ok(2), of 5 Map.empty] obtain all2
    where a2: "collect_team_stats 5 season_two [''SEA'', ''NE''] Map.empty = Inr all2" by auto
  have same: "\<forall>t \<in> {home_team (week6 24 10 ''REG''\<lparr>week := 4\<rparr>),
                      away_team (week6 24 10 ''REG''\<lparr>week := 4\<rparr>)}.
      filter (\<lambda>r. the (r ''week'') < week (week6 24 10 ''REG''\<lparr>week := 4\<rparr>)) (season_one t) =
      filter (\<lambda>r. the (r ''week'') < week (week6 24 10 ''REG''\<lparr>week := 4\<rparr>)) (season_two t)"
    by (simp add: week6_def season_one_def season_two_def team_a_def team_a_late_def
        stat_row_def rolling_cols_def)
  have diff: "season_one ''SEA'' \<noteq> season_two ''SEA''"
    by (simp add: season_one_def season_two_def team_a_def team_a_late_def)
  from features_ignore_later_weeks [OF a1 a2 same] a1 a2 diff show ?thesis by blast
qed

theorem rolling_is_trailing_mean_witness:
  "team_week_stats team_a \<and>
   (\<exists>out. create_rolling_features 5 team_a = Inr out \<and>
      (out ! 4) ''points_rolling_5'' = Some 24 \<and>
      (out ! 1) ''points_rolling_5'' = Some 22 \<and>
      (out ! 4) ''week'' = Some 5) \<and>
   (\<exists>out. create_rolling_features 9 team_a = Inr out \<and>
      (last out) ''sacks_rolling_9'' = Some (12 / 5))"
proof -
  have srt: "sort_key (\<lambda>r. the (r ''week'')) team_a = map stat_row
     [[1, 20, 1, 0, 2, 17, 0, 3], [2, 24, 3, 1, 1, 10, 2, 1], [3, 17, 2, 1, 1, 21, 1, 2],
      [4, 28, 2, 1, 0, 14, 1, 4], [5, 31, 4, 1, 1, 20, 0, 2]]"
    by (simp add: team_a_def stat_row_def rolling_cols_def)
  have names: "rolling_name ''points'' 5 = ''points_rolling_5''"
    "rolling_name ''sacks'' 9 = ''sacks_rolling_9''"
    by (simp_all add: rolling_name_def str_int_def)
  have cols: "''points'' \<in> set rolling_cols" "''sacks'' \<in> set rolling_cols"
    "''week'' \<notin> (\<lambda>c. rolling_name c 5) ` set rolling_cols"
    by (simp_all add: rolling_cols_def rolling_name_def)
  have len: "length team_a = 5" by (simp add: team_a_def)
  from rolling_is_trailing_mean [OF team_a_stats(1), of 5] obtain out
    where out: "create_rolling_features 5 team_a = Inr out"
      and mean: "\<And>c i. c \<in> set rolling_cols \<Longrightarrow> i < length team_a \<Longrightarrow>
        (out ! i) (rolling_name c 5) =
          Some ((\<Sum>j = nat (max 0 (int i - 5 + 1))..i.
                  the ((sort_key (\<lambda>r. the (r ''week'')) team_a ! j) c))
                  / real (i - nat (max 0 (int i - 5 + 1)) + 1))"
      and keep: "\<And>i k. i < length team_a \<Longrightarrow>
        k \<notin> (\<lambda>c. rolling_name c 5) ` set rolling_cols \<Longrightarrow>
        (out ! i) k = (sort_key (\<lambda>r. the (r ''week'')) team_a ! i) k"
    by auto
  have "(out ! 4) ''points_rolling_5'' = Some 24"
    using mean [OF cols(1), of 4]
    by (simp add: len names srt stat_row_def rolling_cols_def sum.atLeast_Suc_atMost)
  moreover have "(out ! 1) ''points_rolling_5'' = Some 22"
    using mean [OF cols(1), of 1]
    by (simp add: len names srt stat_row_def rolling_cols_def sum.atLeast_Suc_atMost)
  moreover have "(out ! 4) ''week'' = Some 5"
    using keep [OF _ cols(3), of 4]
    by (simp add: len srt stat_row_def rolling_cols_def)
  moreover from rolling_is_trailing_mean [OF team_a_stats(1), of 9] obtain out9
    where out9: "create_rolling_features 9 team_a = Inr out9"
      and all9: "\<And>c. c \<in> set rolling_cols \<Longrightarrow> team_a \<noteq> [] \<Longrightarrow>
        int (length team_a) < 9 \<Longrightarrow>
        (last out9) (rolling_name c 9) =
          Some (sum_list (map (\<lambda>r. the (r c)) team_a) / real (length team_a))"
    by auto
  have "(last out9) ''sacks_rolling_9'' = Some (12 / 5)"
    using all9 [OF cols(2)] names(2)
    by (simp add: team_a_def stat_row_def rolling_cols_def)
  ultimately show ?thesis using out out9 team_a_stats(1) by blast
qed

lemma smoothed_row_week: "smoothed_row w r \<Longrightarrow> smoothed_row w (r(''week'' \<mapsto> v))"
  by (simp add: smoothed_row_def rolling_name_not_raw(2))

lemma form_table_smoothed: "smoothed_table 5 (form_table weeks)"
  by (auto simp: smoothed_table_def form_table_def form_smoothed smoothed_row_week)

lemma example_ready:
  "team_ready 5 short_stats ''SEA''" "team_ready 5 short_stats ''NE''"
  "team_ready 5 full_stats ''SEA''" "team_ready 5 full_stats ''NE''"
  by (simp_all add: team_ready_def short_stats_def full_stats_def form_table_smoothed)

lemma example_prior_weeks:
  "prior_weeks short_stats ''SEA'' 6 = 2" "prior_weeks short_stats ''NE'' 6 = 5"
  "prior_weeks full_stats ''SEA'' 6 = 3" "prior_weeks full_stats ''NE'' 6 = 5"
  by (simp_all add: prior_weeks_def short_stats_def full_stats_def form_table_def
      prior_rows_def week_of_def)

theorem minimum_history_rows_witness:
  "training_loop 5 short_stats (completed [week6 24 10 ''REG'']) [] = Inr [] \<and>
   training_loop 5 full_stats (completed [week6 24 10 ''REG'']) [] =
     Inr [[training_row 5 full_stats (week6 24 10 ''REG'')]] \<and>
   prepare_training_data 5 full_stats [week6 24 10 ''REG'', week6 30 3 ''POST''] =
     Inr [training_row 5 full_stats (week6 24 10 ''REG'')]"
proof -
  have ready: "\<forall>g \<in> set [week6 24 10 ''REG'', week6 30 3 ''POST'']. game_type g = ''REG'' \<longrightarrow>
      team_ready 5 short_stats (home_team g) \<and> team_ready 5 short_stats (away_team g)"
    "\<forall>g \<in> set [week6 24 10 ''REG'', week6 30 3 ''POST'']. game_type g = ''REG'' \<longrightarrow>
      team_ready 5 full_stats (home_team g) \<and> team_ready 5 full_stats (away_team g)"
    "\<forall>g \<in> set [week6 24 10 ''REG'']. game_type g = ''REG'' \<longrightarrow>
      team_ready 5 short_stats (home_team g) \<and> team_ready 5 short_stats (away_team g)"
    "\<forall>g \<in> set [week6 24 10 ''REG'']. game_type g = ''REG'' \<longrightarrow>
      team_ready 5 full_stats (home_team g) \<and> team_ready 5 full_stats (away_team g)"
    by (simp_all add: week6_def example_ready)
  have el: "\<not> eligible short_stats (week6 24 10 ''REG'')"
    "eligible full_stats (week6 24 10 ''REG'')"
    "\<not> eligible full_stats (week6 30 3 ''POST'')"
    by (simp_all add: eligible_def week6_def example_prior_weeks)
  show ?thesis
    using minimum_history_rows [OF ready(3)] minimum_history_rows [OF ready(4)]
      minimum_history_rows [OF ready(2)] el
    by simp
qed

theorem training_labels_witness:
  "\<exists>rows. prepare_training_data 5 full_stats
            [week6 24 10 ''REG'', week6 30 3 ''POST'', week6 10 10 ''REG'', week6 3 20 ''REG'']
          = Inr rows \<and>
     length rows = 3 \<and>
     (rows ! 0) ''home_win'' = Some 1 \<and> (rows ! 0) ''point_diff'' = Some 14 \<and>
     (rows ! 1) ''home_win'' = Some 0 \<and> (rows ! 1) ''point_diff'' = Some 0 \<and>
     (rows ! 2) ''home_win'' = Some 0 \<and> (rows ! 2) ''point_diff'' = Some (- 17)"
proof -
  let ?sched = "[week6 24 10 ''REG'', week6 30 3 ''POST'', week6 10 10 ''REG'',
                 week6 3 20 ''REG'']"
  have ready: "\<forall>g \<in> set ?sched. game_type g = ''REG'' \<longrightarrow>
      team_ready 5 full_stats (home_team g) \<and> team_ready 5 full_stats (away_team g)"
    by (simp add: week6_def example_ready)
  have games: "filter (eligible full_stats) ?sched =
      [week6 24 10 ''REG'', week6 10 10 ''REG'', week6 3 20 ''REG'']"
    by (simp add: eligible_def week6_def example_prior_weeks)
  have ne: "filter (eligible full_stats) ?sched \<noteq> []" unfolding games by simp
  from training_labels [OF ready ne] obtain rows
    where run: "prepare_training_data 5 full_stats ?sched = Inr rows"
      and len: "length rows = 3"
      and lab: "\<And>i. i < 3 \<Longrightarrow>
        (rows ! i) ''home_win'' =
          Some (if home_score ([week6 24 10 ''REG'', week6 10 10 ''REG'', week6 3 20 ''REG''] ! i)
                   > away_score ([week6 24 10 ''REG'', week6 10 10 ''REG'', week6 3 20 ''REG''] ! i)
                then 1 else 0) \<and>
        (rows ! i) ''point_diff'' =
          Some (home_score ([week6 24 10 ''REG'', week6 10 10 ''REG'', week6 3 20 ''REG''] ! i)
                - away_score ([week6 24 10 ''REG'', week6 10 10 ''REG'', week6 3 20 ''REG''] ! i))"
    unfolding games by auto
  from lab [of 0] lab [of 1] lab [of 2]
  have "(rows ! 0) ''home_win'' = Some 1 \<and> (rows ! 0) ''point_diff'' = Some 14 \<and>
     (rows ! 1) ''home_win'' = Some 0 \<and> (rows ! 1) ''point_diff'' = Some 0 \<and>
     (rows ! 2) ''home_win'' = Some 0 \<and> (rows ! 2) ''point_diff'' = Some (- 17)"
    by (simp add: week6_def)
  then show ?thesis using run len by blast
qed

text \<open>
  Claim C7. The spec has \<open>prepare_training_data\<close> return an empty table when no game
  is eligible. The code hands the empty list \<open>training_data\<close> to \<^verbatim>\<open>pd.concat\<close>,
  which raises ValueError: for a schedule with only a playoff game, for a regular-season
  game whose home team has two prior weeks, and for the empty schedule.
\<close>

theorem no_eligible_game_raises:
  "prepare_training_data 5 full_stats [week6 30 3 ''POST''] = Inl ValueError \<and>
   prepare_training_data 5 short_stats [week6 24 10 ''REG''] = Inl ValueError \<and>
   prepare_training_data 5 full_stats [] = Inl ValueError"
proof -
  have "game_features 5 short_stats (week6 24 10 ''REG'') = Inr None"
    using game_features_ready [of 5 short_stats "week6 24 10 ''REG''"]
    by (simp add: week6_def example_ready example_prior_weeks)
  then show ?thesis
    by (simp add: prepare_training_data_def completed_def pd_concat_def week6_def)
qed

end
